theory Spec2Isabelle
  imports Main "HOL-Library.Word" "HOL-Library.Sublist"
begin

section \<open>JavaScript values\<close>

text \<open>
  A JavaScript string is a sequence of UTF-16 code units. The string literals of the
  program are ASCII apart from two symbols of the Basic Multilingual Plane, each a single
  code unit: the check mark U+2705 and the cross mark U+274C.
\<close>

type_synonym js_string = "16 word list"

definition u16 :: "string \<Rightarrow> js_string" where
  "u16 s = map of_char s"

definition check_mark :: js_string where
  "check_mark = [0x2705]"

definition cross_mark :: js_string where
  "cross_mark = [0x274C]"

text \<open>
  The data the program receives and sends is JSON. \<open>Undefined\<close> is what reading an absent
  property gives. Numbers are kept to the integers (alert numbers, installation ids).
\<close>

datatype jsval =
    Undefined
  | Null
  | Bool bool
  | Num int
  | Str js_string
  | Arr "jsval list"
  | Obj "(string \<times> jsval) list"

datatype js_error =
    Error js_string
  | TypeError

text \<open>
  \<open>v.includes(s)\<close> for a string \<open>s\<close>: on a string, \<open>String.prototype.includes\<close> searches
  for \<open>s\<close> as a contiguous run of code units; on an array, \<open>Array.prototype.includes\<close>
  looks for an element equal to \<open>s\<close>; \<open>undefined\<close> and \<open>null\<close> have no properties, and
  no other JSON value has a callable \<open>includes\<close>, so the call throws a TypeError.
\<close>

fun js_includes :: "jsval \<Rightarrow> js_string \<Rightarrow> js_error + bool" where
  "js_includes (Str s) x = Inr (sublist x s)"
| "js_includes (Arr vs) x = Inr (Str x \<in> set vs)"
| "js_includes _ x = Inl TypeError"

section \<open>The classifier (util.js)\<close>

text \<open>
  The fetcher's result is an object with the properties \<open>codeql\<close> and \<open>dependabot\<close>, or
  with the single property \<open>error\<close>. A property that is absent reads as \<open>Undefined\<close>, and
  \<open>JSON.stringify\<close> leaves out a property whose value is \<open>undefined\<close>, so \<open>Undefined\<close> stands
  for an absent property. A security report is the object \<open>{ repoFullName, ...report }\<close>
  built from a repository name and the fetcher's result.
\<close>

record fetched =
  codeql :: jsval
  dependabot :: jsval
  error :: jsval

record report = fetched +
  repoFullName :: js_string

record verdict =
  v_repoFullName :: js_string
  safeToUse :: bool
  message :: js_string

text \<open>The argument of \<open>analyzeReports\<close>: an array of reports, or any value that is no array.\<close>

datatype report_arg =
    ReportList "report list"
  | NotAnArray jsval

definition invalid_input :: js_string where
  "invalid_input = cross_mark @ u16 '' Invalid input: reportList must be a non-empty array.''"

definition unsafe_message :: "js_string \<Rightarrow> js_string" where
  "unsafe_message name = cross_mark @ u16 '' '' @ name @ u16 '' is NOT safe to use due to security alerts.''"

definition safe_message :: "js_string \<Rightarrow> js_string" where
  "safe_message name = check_mark @ u16 '' '' @ name @ u16 '' is safe to use.''"

text \<open>
  The arrow function mapped over the list. The object literal evaluates \<open>safeToUse\<close> and
  then \<open>message\<close>; \<open>&&\<close> and \<open>||\<close> evaluate their right operand only when the left one
  does not decide, so \<open>dependabot.includes\<close> is called only when \<open>codeql\<close> holds the mark.
\<close>

definition classify :: "report \<Rightarrow> js_error + verdict" where
  "classify r =
     (case js_includes (codeql r) check_mark of
        Inl e \<Rightarrow> Inl e
      | Inr c \<Rightarrow>
         (case (if c then js_includes (dependabot r) check_mark else Inr False) of
            Inl e \<Rightarrow> Inl e
          | Inr safe \<Rightarrow>
             (case js_includes (codeql r) check_mark of
                Inl e \<Rightarrow> Inl e
              | Inr c' \<Rightarrow>
                 (case (if \<not> c' then Inr True
                        else (case js_includes (dependabot r) check_mark of
                                Inl e \<Rightarrow> Inl e | Inr d \<Rightarrow> Inr (\<not> d))) of
                    Inl e \<Rightarrow> Inl e
                  | Inr unsafe \<Rightarrow>
                      Inr \<lparr>v_repoFullName = repoFullName r,
                           safeToUse = safe,
                           message = (if unsafe then unsafe_message (repoFullName r)
                                      else safe_message (repoFullName r))\<rparr>))))"

text \<open>\<open>Array.prototype.map\<close>: left to right, the first exception ends the call.\<close>

fun map_throwing :: "('a \<Rightarrow> js_error + 'b) \<Rightarrow> 'a list \<Rightarrow> js_error + 'b list" where
  "map_throwing f [] = Inr []"
| "map_throwing f (x # xs) =
     (case f x of
        Inl e \<Rightarrow> Inl e
      | Inr y \<Rightarrow> (case map_throwing f xs of Inl e \<Rightarrow> Inl e | Inr ys \<Rightarrow> Inr (y # ys)))"

fun analyzeReports :: "report_arg \<Rightarrow> js_error + verdict list" where
  "analyzeReports (NotAnArray v) = Inl (Error invalid_input)"
| "analyzeReports (ReportList rs) =
     (if length rs = 0 then Inl (Error invalid_input) else map_throwing classify rs)"

section \<open>The registry (server files)\<close>

text \<open>
  Both server files keep the same two module-level maps and the same \<open>addRepository\<close>,
  \<open>/checkIfAdded\<close>, \<open>/addOrgWithRepos\<close> and \<open>fetchSecurityReports\<close>; they differ in the
  body that \<open>/checkIfSafeToUse\<close> sends and in what the webhook does after an alert event.
  Repository names, organization names and query parameters are strings, installation
  ids are integers. A handler runs on the registry it is given and returns the registry
  it leaves.
\<close>

record registry =
  installedRepositories :: "js_string \<rightharpoonup> int"
  orgRepositories :: "js_string \<rightharpoonup> js_string list"

definition empty_registry :: registry where
  "empty_registry = \<lparr>installedRepositories = Map.empty, orgRepositories = Map.empty\<rparr>"

text \<open>\<open>orgRepositories.get(orgName).push(repoFullName)\<close>, the list being there.\<close>

definition push_repo :: "js_string \<Rightarrow> js_string \<Rightarrow> registry \<Rightarrow> registry" where
  "push_repo orgName fullName s =
     (case orgRepositories s orgName of
        None \<Rightarrow> s
      | Some l \<Rightarrow> s\<lparr>orgRepositories := (orgRepositories s)(orgName \<mapsto> l @ [fullName])\<rparr>)"

definition ensure_org :: "js_string \<Rightarrow> registry \<Rightarrow> registry" where
  "ensure_org orgName s =
     (if orgRepositories s orgName = None
      then s\<lparr>orgRepositories := (orgRepositories s)(orgName \<mapsto> [])\<rparr>
      else s)"

definition addRepository :: "js_string \<Rightarrow> js_string \<Rightarrow> int \<Rightarrow> registry \<Rightarrow> registry" where
  "addRepository fullName orgName installationId s =
     push_repo orgName fullName
       (ensure_org orgName
          (s\<lparr>installedRepositories := (installedRepositories s)(fullName \<mapsto> installationId)\<rparr>))"

datatype body =
    Message js_string
  | ReportArray "report list"
  | OrgReports js_string "report list"
  | Text js_string

record response =
  status :: nat
  body :: body

text \<open>\<open>Array.prototype.join\<close> on a list of strings.\<close>

fun join :: "js_string \<Rightarrow> js_string list \<Rightarrow> js_string" where
  "join sep [] = []"
| "join sep [x] = x"
| "join sep (x # y # ys) = x @ sep @ join sep (y # ys)"

text \<open>A query parameter or body property in a template literal; an absent one prints as \<open>undefined\<close>.\<close>

fun shown :: "js_string option \<Rightarrow> js_string" where
  "shown None = u16 ''undefined''"
| "shown (Some x) = x"

definition checkIfAdded :: "js_string option \<Rightarrow> registry \<Rightarrow> response \<times> registry" where
  "checkIfAdded repoUrl s =
     (if (case repoUrl of None \<Rightarrow> False | Some r \<Rightarrow> installedRepositories s r \<noteq> None)
      then (\<lparr>status = 200,
             body = Message (check_mark @ u16 '' Repository '' @ shown repoUrl @ u16 '' has installed the app.'')\<rparr>, s)
      else (\<lparr>status = 404,
             body = Message (cross_mark @ u16 '' Repository '' @ shown repoUrl @ u16 '' has NOT installed the app.'')\<rparr>, s))"

definition invalid_request :: response where
  "invalid_request =
     \<lparr>status = 400,
      body = Message (cross_mark @ u16 '' Invalid request. Provide 'org' and a non-empty array of 'repos'.'')\<rparr>"

text \<open>The \<open>forEach\<close> of \<open>/addOrgWithRepos\<close>: push a repository the list does not include yet.\<close>

definition add_if_new :: "js_string \<Rightarrow> registry \<Rightarrow> js_string \<Rightarrow> registry" where
  "add_if_new org s repo =
     (case orgRepositories s org of
        None \<Rightarrow> s
      | Some l \<Rightarrow> if repo \<notin> set l then push_repo org repo s else s)"

text \<open>
  The body of the request is \<open>{org, repos}\<close>: \<open>org\<close> a string or absent, \<open>repos\<close> an array of
  strings or no array (\<open>None\<close>). The empty string is falsy. The second server file starts
  the success message with the check mark.
\<close>

fun addOrgWithRepos :: "js_string option \<Rightarrow> js_string list option \<Rightarrow> registry \<Rightarrow> response \<times> registry" where
  "addOrgWithRepos (Some org) (Some repos) s =
     (if org = [] \<or> length repos = 0 then (invalid_request, s)
      else
        let s1 = ensure_org org s;
            notInstalledRepos = filter (\<lambda>repo. installedRepositories s1 repo = None) repos
        in if length notInstalledRepos > 0
           then (\<lparr>status = 400,
                  body = Message (cross_mark @ u16 '' The following repositories have not installed the app and cannot be added: ''
                                  @ join (u16 '', '') notInstalledRepos)\<rparr>, s1)
           else (\<lparr>status = 200,
                  body = Message (u16 ''Added organization '' @ org @ u16 '' with repositories: ''
                                  @ join (u16 '', '') repos)\<rparr>,
                 foldl (add_if_new org) s1 repos))"
| "addOrgWithRepos _ _ s = (invalid_request, s)"

section \<open>The report fetcher\<close>

text \<open>
  The platform is outside the program. A client handle is its \<open>request\<close> method for the two
  alert endpoints: \<open>None\<close> when the request rejects, otherwise the array in \<open>data\<close>.
  \<open>getOctokit\<close> only signs a token and exchanges it, so it is a parameter of the
  handlers: \<open>None\<close> when it throws, otherwise the client for that installation.
\<close>

datatype endpoint = CodeScanningAlerts | DependabotAlerts

type_synonym octokit = "endpoint \<Rightarrow> js_string \<Rightarrow> js_string option \<Rightarrow> jsval list option"

type_synonym minter = "int \<Rightarrow> octokit option"

definition no_codeql_alerts :: js_string where
  "no_codeql_alerts = check_mark @ u16 '' No CodeQL alerts''"

definition no_dependabot_alerts :: js_string where
  "no_dependabot_alerts = check_mark @ u16 '' No Dependabot alerts''"

definition fetch_failed :: fetched where
  "fetch_failed =
     \<lparr>codeql = Undefined, dependabot = Undefined, error = Str (u16 ''Failed to fetch security reports'')\<rparr>"

definition fetchSecurityReports :: "octokit \<Rightarrow> js_string \<Rightarrow> js_string option \<Rightarrow> fetched" where
  "fetchSecurityReports octokit owner repo =
     (case octokit CodeScanningAlerts owner repo of
        None \<Rightarrow> fetch_failed
      | Some codeqlAlerts \<Rightarrow>
         (case octokit DependabotAlerts owner repo of
            None \<Rightarrow> fetch_failed
          | Some dependabotAlerts \<Rightarrow>
              \<lparr>codeql = (if length codeqlAlerts > 0 then Arr codeqlAlerts else Str no_codeql_alerts),
               dependabot = (if length dependabotAlerts > 0 then Arr dependabotAlerts
                             else Str no_dependabot_alerts),
               error = Undefined\<rparr>))"

section \<open>The safety endpoint\<close>

text \<open>\<open>String.prototype.split\<close> with a one-unit separator: at least one part, also for \<open>""\<close>.\<close>

fun split :: "'a \<Rightarrow> 'a list \<Rightarrow> 'a list list" where
  "split sep [] = [[]]"
| "split sep (c # cs) =
     (if c = sep then [] # split sep cs
      else (case split sep cs of [] \<Rightarrow> [[c]] | p # ps \<Rightarrow> (c # p) # ps))"

definition slash :: "16 word" where
  "slash = 0x2F"

text \<open>\<open>const [owner, repo] = repoFullName.split("/")\<close>; a missing second part is \<open>undefined\<close>.\<close>

definition owner_repo :: "js_string \<Rightarrow> js_string \<times> js_string option" where
  "owner_repo fullName =
     (case split slash fullName of
        [] \<Rightarrow> ([], None)
      | [ow] \<Rightarrow> (ow, None)
      | ow # rp # _ \<Rightarrow> (ow, Some rp))"

definition named :: "js_string \<Rightarrow> fetched \<Rightarrow> report" where
  "named name f =
     \<lparr>codeql = codeql f, dependabot = dependabot f, error = error f, repoFullName = name\<rparr>"

text \<open>
  The loop of \<open>/checkIfSafeToUse\<close>. A repository whose installation id is absent or \<open>0\<close> is
  skipped. \<open>getOctokit\<close> is awaited outside any \<open>try\<close>: when it throws, the handler's
  promise rejects and nothing is sent (\<open>None\<close>).
\<close>

fun collect_reports :: "minter \<Rightarrow> registry \<Rightarrow> js_string list \<Rightarrow> report list option" where
  "collect_reports getOctokit s [] = Some []"
| "collect_reports getOctokit s (name # names) =
     (case installedRepositories s name of
        None \<Rightarrow> collect_reports getOctokit s names
      | Some installationId \<Rightarrow>
          if installationId = 0 then collect_reports getOctokit s names
          else
            (case getOctokit installationId of
               None \<Rightarrow> None
             | Some octokit \<Rightarrow>
                 (case collect_reports getOctokit s names of
                    None \<Rightarrow> None
                  | Some reports \<Rightarrow>
                      Some (named name (fetchSecurityReports octokit (fst (owner_repo name)) (snd (owner_repo name)))
                            # reports))))"

definition no_repositories :: "js_string option \<Rightarrow> response" where
  "no_repositories org =
     \<lparr>status = 404, body = Message (cross_mark @ u16 '' No repositories found for org: '' @ shown org)\<rparr>"

text \<open>The handler of the first server file answers with the array of reports.\<close>

definition checkIfSafeToUse :: "minter \<Rightarrow> js_string option \<Rightarrow> registry \<Rightarrow> response option \<times> registry" where
  "checkIfSafeToUse getOctokit org s =
     (case (case org of None \<Rightarrow> None | Some name \<Rightarrow> orgRepositories s name) of
        None \<Rightarrow> (Some (no_repositories org), s)
      | Some repos \<Rightarrow>
         (case collect_reports getOctokit s repos of
            None \<Rightarrow> (None, s)
          | Some reports \<Rightarrow> (Some \<lparr>status = 200, body = ReportArray reports\<rparr>, s)))"

text \<open>The handler of the second server file answers with the object \<open>{ org, reports }\<close>.\<close>

definition checkIfSafeToUse_2 :: "minter \<Rightarrow> js_string option \<Rightarrow> registry \<Rightarrow> response option \<times> registry" where
  "checkIfSafeToUse_2 getOctokit org s =
     (case (case org of None \<Rightarrow> None | Some name \<Rightarrow> orgRepositories s name) of
        None \<Rightarrow> (Some (no_repositories org), s)
      | Some repos \<Rightarrow>
         (case collect_reports getOctokit s repos of
            None \<Rightarrow> (None, s)
          | Some reports \<Rightarrow> (Some \<lparr>status = 200, body = OrgReports (shown org) reports\<rparr>, s)))"

section \<open>The webhook\<close>

text \<open>
  The payload of an event: the full names in \<open>repositories\<close>, the login of the installing
  account and the installation id. An \<open>installation\<close> event replays each repository into
  the registry. The alert events (\<open>push\<close>, \<open>pull_request\<close>, \<open>dependabot_alert\<close>,
  \<open>codeql_alert\<close>) only read the registry and talk to the platform, so they leave the
  registry as it is, in both server files.
\<close>

record payload =
  repositories :: "js_string list"
  account_login :: js_string
  installation_id :: int

definition webhook :: "js_string option \<Rightarrow> payload \<Rightarrow> registry \<Rightarrow> response \<times> registry" where
  "webhook event p s =
     (\<lparr>status = 200, body = Text (u16 ''Webhook received'')\<rparr>,
      if event = Some (u16 ''installation'')
      then foldl (\<lambda>s' full_name. addRepository full_name (account_login p) (installation_id p) s')
             s (repositories p)
      else s)"

text \<open>The states the registry can be in: from the empty maps, by the two handlers that write.\<close>

inductive reachable :: "registry \<Rightarrow> bool" where
  start: "reachable empty_registry"
| hook: "reachable s \<Longrightarrow> reachable (snd (webhook event p s))"
| register: "reachable s \<Longrightarrow> reachable (snd (addOrgWithRepos org repos s))"

section \<open>Predicates and sample data for the properties\<close>

text \<open>
  What the containment check against the mark decides: a string holds the mark when the
  mark occurs in it, a list when the mark is one of its elements (which a list of alert
  objects never is), and no other value does.
\<close>

definition holds_mark :: "jsval \<Rightarrow> bool" where
  "holds_mark v = (case v of Str s \<Rightarrow> sublist check_mark s | Arr vs \<Rightarrow> Str check_mark \<in> set vs | _ \<Rightarrow> False)"

text \<open>The values on which \<open>includes\<close> can be called.\<close>

definition has_includes :: "jsval \<Rightarrow> bool" where
  "has_includes v = (case v of Str s \<Rightarrow> True | Arr vs \<Rightarrow> True | _ \<Rightarrow> False)"

text \<open>
  A report the arrow function gets through: \<open>codeql.includes\<close> can be called, and so can
  \<open>dependabot.includes\<close> when it is reached.
\<close>

definition classifiable :: "report \<Rightarrow> bool" where
  "classifiable r = (has_includes (codeql r) \<and> (holds_mark (codeql r) \<longrightarrow> has_includes (dependabot r)))"

text \<open>A report with no alerts, and one with a CodeQL alert.\<close>

definition quiet_report :: "js_string \<Rightarrow> report" where
  "quiet_report name = \<lparr>codeql = Str no_codeql_alerts, dependabot = Str no_dependabot_alerts,
                         error = Undefined, repoFullName = name\<rparr>"

definition clean_report :: report where
  "clean_report = quiet_report (u16 ''a/b'')"

definition alert_report :: report where
  "alert_report = \<lparr>codeql = Arr [Obj [(''number'', Num 4)]], dependabot = Str no_dependabot_alerts,
                    error = Undefined, repoFullName = u16 ''a/c''\<rparr>"

text \<open>The list of an organization, empty when the organization is unknown.\<close>

definition org_list :: "registry \<Rightarrow> js_string \<Rightarrow> js_string list" where
  "org_list s orgName = (case orgRepositories s orgName of None \<Rightarrow> [] | Some l \<Rightarrow> l)"

text \<open>A repository the loop of \<open>/checkIfSafeToUse\<close> does not skip: installed with a truthy id.\<close>

definition tracked :: "registry \<Rightarrow> js_string \<Rightarrow> bool" where
  "tracked s name = (case installedRepositories s name of None \<Rightarrow> False | Some i \<Rightarrow> i \<noteq> 0)"

text \<open>The report the loop builds for a repository: the fetch through the client minted for its id.\<close>

definition fetched_by :: "minter \<Rightarrow> registry \<Rightarrow> js_string \<Rightarrow> report \<Rightarrow> bool" where
  "fetched_by getOctokit s name rep =
     (\<exists>i octokit. installedRepositories s name = Some i \<and> getOctokit i = Some octokit
        \<and> rep = named name (fetchSecurityReports octokit (fst (owner_repo name)) (snd (owner_repo name))))"

text \<open>The invariant of the data model: an organization lists installed repositories only.\<close>

definition registry_inv :: "registry \<Rightarrow> bool" where
  "registry_inv s =
     (\<forall>org l. orgRepositories s org = Some l \<longrightarrow> (\<forall>r\<in>set l. installedRepositories s r \<noteq> None))"

text \<open>
  An installation event for two repositories of the account \<open>a\<close>, the registry after it,
  and after its second delivery; a registration that succeeds and one that is rejected.
\<close>

definition installation :: "js_string option" where
  "installation = Some (u16 ''installation'')"

definition sample_payload :: payload where
  "sample_payload = \<lparr>repositories = [u16 ''a/b'', u16 ''a/c''], account_login = u16 ''a'', installation_id = 7\<rparr>"

definition installed_once :: registry where
  "installed_once = snd (webhook installation sample_payload empty_registry)"

definition installed_twice :: registry where
  "installed_twice = snd (webhook installation sample_payload installed_once)"

definition registered :: registry where
  "registered = snd (addOrgWithRepos (Some (u16 ''o'')) (Some [u16 ''a/b'']) installed_once)"

definition rejected :: "response \<times> registry" where
  "rejected = addOrgWithRepos (Some (u16 ''o'')) (Some [u16 ''a/b'', u16 ''x/y'']) installed_once"

text \<open>
  Platforms: a client with no alerts, one with a CodeQL alert, one whose second request
  fails; a minter that always fails and one that always hands out the first client.
\<close>

definition quiet_client :: octokit where
  "quiet_client = (\<lambda>e ow rp. Some [])"

definition noisy_client :: octokit where
  "noisy_client = (\<lambda>e ow rp. case e of CodeScanningAlerts \<Rightarrow> Some [Obj [(''number'', Num 4)]] | DependabotAlerts \<Rightarrow> Some [])"

definition offline_client :: octokit where
  "offline_client = (\<lambda>e ow rp. case e of CodeScanningAlerts \<Rightarrow> Some [] | DependabotAlerts \<Rightarrow> None)"

definition no_tokens :: minter where
  "no_tokens = (\<lambda>i. None)"

definition quiet_platform :: minter where
  "quiet_platform = (\<lambda>i. Some quiet_client)"


section \<open>Properties of the classifier\<close>

lemma sublist_single: "sublist [x] s \<longleftrightarrow> x \<in> set s"
  by (induction s) (auto simp: sublist_Cons_right)

lemma js_includes_Inr: "js_includes v check_mark = Inr b \<Longrightarrow> has_includes v \<and> b = holds_mark v"
  by (cases v) (auto simp: has_includes_def holds_mark_def)

lemma js_includes_Inl: "js_includes v x = Inl e \<Longrightarrow> \<not> has_includes v \<and> e = TypeError"
  by (cases v) (auto simp: has_includes_def)

lemma classify_Inr:
  assumes "classify r = Inr v"
  shows "v = \<lparr>v_repoFullName = repoFullName r,
              safeToUse = (holds_mark (codeql r) \<and> holds_mark (dependabot r)),
              message = (if holds_mark (codeql r) \<and> holds_mark (dependabot r)
                         then safe_message (repoFullName r) else unsafe_message (repoFullName r))\<rparr>"
    and "classifiable r"
  using assms
  by (auto simp: classify_def classifiable_def split: sum.splits if_splits dest!: js_includes_Inr js_includes_Inl)

lemma classify_Inl:
  assumes "classify r = Inl e"
  shows "e = TypeError" and "\<not> classifiable r"
  using assms
  by (auto simp: classify_def classifiable_def split: sum.splits if_splits dest!: js_includes_Inr js_includes_Inl)

lemma map_throwing_Inr:
  "map_throwing f xs = Inr ys \<Longrightarrow> length ys = length xs \<and> (\<forall>i<length xs. f (xs ! i) = Inr (ys ! i))"
proof (induction xs arbitrary: ys)
  case Nil
  then show ?case by simp
next
  case (Cons x xs)
  then show ?case
    by (auto split: sum.splits simp: nth_Cons split: nat.splits)
qed

lemma map_throwing_Inl:
  "map_throwing f xs = Inl e \<Longrightarrow> \<exists>x\<in>set xs. f x = Inl e"
  by (induction xs) (auto split: sum.splits)


text \<open>
  C1, as stated, fails: in the report of a failed fetch neither field holds the mark,
  and the classifier gives no verdict with \<open>safeToUse = false\<close> for it, it throws.
\<close>

theorem analyzeReports_absent_field_counterexample:
  "\<not> holds_mark (codeql (named (u16 ''a/b'') fetch_failed))
   \<and> \<not> holds_mark (dependabot (named (u16 ''a/b'') fetch_failed))
   \<and> analyzeReports (ReportList [named (u16 ''a/b'') fetch_failed]) = Inl TypeError"
  by (simp add: named_def fetch_failed_def classify_def holds_mark_def)

text \<open>
  C1, amended. For a non-empty list in which every report can be classified (its
  \<open>codeql\<close> field is a string or a list, and so is its \<open>dependabot\<close> field when the
  \<open>codeql\<close> field holds the mark), \<open>analyzeReports\<close> returns one verdict per report, in
  order and under the report's name; the verdict has \<open>safeToUse = true\<close> exactly when the
  \<open>codeql\<close> field and the \<open>dependabot\<close> field both pass the containment check against the
  check mark; when one of them does not, \<open>safeToUse\<close> is false and the message starts
  with the cross mark, and otherwise the message starts with the check mark.
\<close>

theorem analyzeReports_safeToUse:
  assumes "rs \<noteq> []" and "\<forall>r\<in>set rs. classifiable r"
  shows "\<exists>vs. analyzeReports (ReportList rs) = Inr vs
             \<and> length vs = length rs
             \<and> (\<forall>i<length rs.
                   v_repoFullName (vs ! i) = repoFullName (rs ! i)
                 \<and> safeToUse (vs ! i) = (holds_mark (codeql (rs ! i)) \<and> holds_mark (dependabot (rs ! i)))
                 \<and> (\<not> safeToUse (vs ! i) \<longrightarrow> prefix cross_mark (message (vs ! i)))
                 \<and> (safeToUse (vs ! i) \<longrightarrow> prefix check_mark (message (vs ! i))))"
proof (cases "map_throwing classify rs")
  case (Inl e)
  from map_throwing_Inl [OF Inl] obtain r where "r \<in> set rs" "classify r = Inl e"
    by blast
  with classify_Inl(2) assms(2) show ?thesis
    by blast
next
  case (Inr vs)
  have each: "v_repoFullName (vs ! i) = repoFullName (rs ! i)
            \<and> safeToUse (vs ! i) = (holds_mark (codeql (rs ! i)) \<and> holds_mark (dependabot (rs ! i)))
            \<and> (\<not> safeToUse (vs ! i) \<longrightarrow> prefix cross_mark (message (vs ! i)))
            \<and> (safeToUse (vs ! i) \<longrightarrow> prefix check_mark (message (vs ! i)))"
    if "i < length rs" for i
  proof -
    from map_throwing_Inr [OF Inr] that have c: "classify (rs ! i) = Inr (vs ! i)"
      by simp
    from classify_Inr(1) [OF c] show ?thesis
      by (simp add: unsafe_message_def safe_message_def)
  qed
  from map_throwing_Inr [OF Inr] have "length vs = length rs"
    by simp
  moreover from Inr assms(1) have "analyzeReports (ReportList rs) = Inr vs"
    by simp
  ultimately show ?thesis
    using each by blast
qed

lemma analyzeReports_example:
  "analyzeReports (ReportList [clean_report, alert_report]) =
     Inr [\<lparr>v_repoFullName = u16 ''a/b'', safeToUse = True, message = safe_message (u16 ''a/b'')\<rparr>,
          \<lparr>v_repoFullName = u16 ''a/c'', safeToUse = False, message = unsafe_message (u16 ''a/c'')\<rparr>]"
  by (simp add: clean_report_def quiet_report_def alert_report_def classify_def no_codeql_alerts_def
      no_dependabot_alerts_def)

theorem analyzeReports_safeToUse_witness:
  "[clean_report, alert_report] \<noteq> []
   \<and> classifiable clean_report \<and> classifiable alert_report
   \<and> holds_mark (codeql clean_report) \<and> holds_mark (dependabot clean_report)
   \<and> \<not> holds_mark (codeql alert_report)
   \<and> (\<exists>vs. analyzeReports (ReportList [clean_report, alert_report]) = Inr vs
          \<and> length vs = 2
          \<and> safeToUse (vs ! 0)
          \<and> \<not> safeToUse (vs ! 1)
          \<and> prefix cross_mark (message (vs ! 1)))"
proof -
  let ?rs = "[clean_report, alert_report]"
  have ne: "?rs \<noteq> []"
    by simp
  have c: "classifiable clean_report" "classifiable alert_report"
    by (simp_all add: classifiable_def has_includes_def clean_report_def quiet_report_def alert_report_def)
  then have all: "\<forall>r\<in>set ?rs. classifiable r"
    by simp
  have h: "holds_mark (codeql clean_report)" "holds_mark (dependabot clean_report)"
      "\<not> holds_mark (codeql alert_report)"
    by (simp_all add: holds_mark_def clean_report_def quiet_report_def alert_report_def
        no_codeql_alerts_def no_dependabot_alerts_def)
  from analyzeReports_safeToUse [OF ne all] obtain vs where
    r: "analyzeReports (ReportList ?rs) = Inr vs" and l: "length vs = length ?rs" and
    v: "\<forall>i<length ?rs.
          v_repoFullName (vs ! i) = repoFullName (?rs ! i)
        \<and> safeToUse (vs ! i) = (holds_mark (codeql (?rs ! i)) \<and> holds_mark (dependabot (?rs ! i)))
        \<and> (\<not> safeToUse (vs ! i) \<longrightarrow> prefix cross_mark (message (vs ! i)))
        \<and> (safeToUse (vs ! i) \<longrightarrow> prefix check_mark (message (vs ! i)))"
    by blast
  from v have "safeToUse (vs ! 0) = (holds_mark (codeql clean_report) \<and> holds_mark (dependabot clean_report))"
    by simp
  with h have s0: "safeToUse (vs ! 0)"
    by simp
  from v have "safeToUse (vs ! 1) = (holds_mark (codeql alert_report) \<and> holds_mark (dependabot alert_report))
             \<and> (\<not> safeToUse (vs ! 1) \<longrightarrow> prefix cross_mark (message (vs ! 1)))"
    by simp
  with h have s1: "\<not> safeToUse (vs ! 1)" "prefix cross_mark (message (vs ! 1))"
    by simp_all
  from l have "length vs = 2"
    by simp
  with r s0 s1 have "\<exists>vs. analyzeReports (ReportList ?rs) = Inr vs
          \<and> length vs = 2 \<and> safeToUse (vs ! 0) \<and> \<not> safeToUse (vs ! 1)
          \<and> prefix cross_mark (message (vs ! 1))"
    by blast
  with ne c h show ?thesis
    by blast
qed

text \<open>
  C10. A list that contains a report in the fetcher's failure shape, whose \<open>codeql\<close> field
  is absent, makes \<open>analyzeReports\<close> throw a TypeError: no verdict list is returned,
  whatever the other reports are.
\<close>

theorem analyzeReports_failure_shape_throws:
  assumes "r \<in> set rs" and "codeql r = Undefined"
  shows "analyzeReports (ReportList rs) = Inl TypeError"
proof (cases "map_throwing classify rs")
  case (Inl e)
  with map_throwing_Inl [OF Inl] classify_Inl(1) assms(1) show ?thesis
    by auto
next
  case (Inr vs)
  from assms(1) obtain i where i: "i < length rs" "rs ! i = r"
    by (auto simp: in_set_conv_nth)
  with map_throwing_Inr [OF Inr] have "classify r = Inr (vs ! i)"
    by auto
  with assms(2) show ?thesis
    by (simp add: classify_def)
qed

theorem analyzeReports_failure_shape_throws_witness:
  "named (u16 ''a/b'') fetch_failed \<in> set [clean_report, named (u16 ''a/b'') fetch_failed]
   \<and> codeql (named (u16 ''a/b'') fetch_failed) = Undefined
   \<and> analyzeReports (ReportList [clean_report, named (u16 ''a/b'') fetch_failed]) = Inl TypeError"
  using analyzeReports_failure_shape_throws
          [of "named (u16 ''a/b'') fetch_failed" "[clean_report, named (u16 ''a/b'') fetch_failed]"]
  by (simp add: named_def fetch_failed_def)

text \<open>
  C6, as stated, fails: the one-element list holding a failed fetch is a non-empty list,
  and the classifier throws on it.
\<close>

theorem analyzeReports_nonempty_counterexample:
  "[named (u16 ''a/b'') fetch_failed] \<noteq> []
   \<and> analyzeReports (ReportList [named (u16 ''a/b'') fetch_failed]) = Inl TypeError"
  by (simp add: named_def fetch_failed_def classify_def)

text \<open>
  C6, amended. The classifier throws its validation error exactly when its input is no
  list or is the empty list. On a non-empty list it throws a TypeError exactly when some
  report cannot be classified (its \<open>codeql\<close> field is neither a string nor a list, or that
  field holds the mark and its \<open>dependabot\<close> field is neither a string nor a list), and it
  returns one verdict per report exactly when every report can be classified.
\<close>

theorem analyzeReports_throws_iff:
  "(analyzeReports x = Inl (Error invalid_input)
      \<longleftrightarrow> (case x of NotAnArray v \<Rightarrow> True | ReportList rs \<Rightarrow> rs = []))
   \<and> (analyzeReports x = Inl TypeError
      \<longleftrightarrow> (case x of NotAnArray v \<Rightarrow> False | ReportList rs \<Rightarrow> rs \<noteq> [] \<and> (\<exists>r\<in>set rs. \<not> classifiable r)))
   \<and> ((\<exists>vs. analyzeReports x = Inr vs \<and> (case x of NotAnArray v \<Rightarrow> False | ReportList rs \<Rightarrow> length vs = length rs))
      \<longleftrightarrow> (case x of NotAnArray v \<Rightarrow> False | ReportList rs \<Rightarrow> rs \<noteq> [] \<and> (\<forall>r\<in>set rs. classifiable r)))"
proof (cases x)
  case (NotAnArray v)
  then show ?thesis by simp
next
  case (ReportList rs)
  show ?thesis
  proof (cases "rs = []")
    case True
    with ReportList show ?thesis by simp
  next
    case False
    show ?thesis
    proof (cases "map_throwing classify rs")
      case (Inl e)
      from map_throwing_Inl [OF Inl] obtain r where r: "r \<in> set rs" "classify r = Inl e"
        by blast
      from classify_Inl [OF r(2)] r(1) Inl ReportList False show ?thesis
        by auto
    next
      case (Inr vs)
      have "classifiable r" if "r \<in> set rs" for r
      proof -
        from that obtain i where "i < length rs" "rs ! i = r"
          by (auto simp: in_set_conv_nth)
        with map_throwing_Inr [OF Inr] have "classify r = Inr (vs ! i)"
          by auto
        then show ?thesis by (rule classify_Inr(2))
      qed
      with map_throwing_Inr [OF Inr] Inr ReportList False show ?thesis
        by auto
    qed
  qed
qed

theorem analyzeReports_throws_iff_witness:
  "analyzeReports (ReportList [clean_report, alert_report]) \<noteq> Inl TypeError
   \<and> classifiable clean_report \<and> classifiable alert_report
   \<and> \<not> classifiable (named (u16 ''a/b'') fetch_failed)
   \<and> analyzeReports (ReportList [named (u16 ''a/b'') fetch_failed]) = Inl TypeError"
proof -
  have ok: "\<exists>vs. analyzeReports (ReportList [clean_report, alert_report]) = Inr vs
                \<and> length vs = length [clean_report, alert_report]"
    by (simp del: analyzeReports.simps add: analyzeReports_example)
  have bad: "\<not> classifiable (named (u16 ''a/b'') fetch_failed)"
    by (simp add: classifiable_def has_includes_def named_def fetch_failed_def)
  from ok analyzeReports_throws_iff [of "ReportList [clean_report, alert_report]"]
  have "classifiable clean_report \<and> classifiable alert_report"
    by (simp del: analyzeReports.simps)
  moreover from bad analyzeReports_throws_iff [of "ReportList [named (u16 ''a/b'') fetch_failed]"]
  have "analyzeReports (ReportList [named (u16 ''a/b'') fetch_failed]) = Inl TypeError"
    by (simp del: analyzeReports.simps)
  ultimately show ?thesis
    using bad by (simp del: analyzeReports.simps add: analyzeReports_example)
qed

section \<open>Properties of the registry\<close>

lemma installed_addRepository:
  "installedRepositories (addRepository r org i s) = (installedRepositories s)(r \<mapsto> i)"
  by (simp add: addRepository_def push_repo_def ensure_org_def split: option.splits)

lemma org_addRepository:
  "orgRepositories (addRepository r org i s) = (orgRepositories s)(org \<mapsto> org_list s org @ [r])"
  by (auto simp: addRepository_def push_repo_def ensure_org_def org_list_def split: option.splits)

lemma installed_replay:
  "installedRepositories (foldl (\<lambda>s' n. addRepository n org i s') s names) k =
     (if k \<in> set names then Some i else installedRepositories s k)"
  by (induction names arbitrary: s) (auto simp: installed_addRepository)

lemma org_replay:
  "orgRepositories (foldl (\<lambda>s' n. addRepository n org i s') s names) =
     (if names = [] then orgRepositories s else (orgRepositories s)(org \<mapsto> org_list s org @ names))"
  by (induction names arbitrary: s) (auto simp: org_addRepository org_list_def)

lemma org_list_replay:
  "org_list (foldl (\<lambda>s' n. addRepository n org i s') s names) org = org_list s org @ names"
  by (simp add: org_replay org_list_def)

lemma count_list_distinct: "distinct xs \<Longrightarrow> x \<in> set xs \<Longrightarrow> count_list xs x = 1"
  by (induction xs) auto

lemma installed_ensure_org [simp]:
  "installedRepositories (ensure_org org s) = installedRepositories s"
  by (simp add: ensure_org_def)

lemma org_ensure_org:
  "orgRepositories (ensure_org org s) other =
     (if other = org \<and> orgRepositories s org = None then Some [] else orgRepositories s other)"
  by (simp add: ensure_org_def)

lemma installed_add_if_new [simp]:
  "installedRepositories (add_if_new org s r) = installedRepositories s"
  by (simp add: add_if_new_def push_repo_def split: option.splits)

lemma installed_once_eq:
  "installed_once =
     \<lparr>installedRepositories = [u16 ''a/b'' \<mapsto> 7, u16 ''a/c'' \<mapsto> 7],
      orgRepositories = [u16 ''a'' \<mapsto> [u16 ''a/b'', u16 ''a/c'']]\<rparr>"
  by (simp add: installed_once_def webhook_def installation_def sample_payload_def addRepository_def
      push_repo_def ensure_org_def empty_registry_def)

lemma installed_twice_eq:
  "installed_twice =
     \<lparr>installedRepositories = [u16 ''a/b'' \<mapsto> 7, u16 ''a/c'' \<mapsto> 7],
      orgRepositories = [u16 ''a'' \<mapsto> [u16 ''a/b'', u16 ''a/c'', u16 ''a/b'', u16 ''a/c'']]\<rparr>"
  apply (simp add: installed_twice_def installed_once_eq)
  apply (simp add: webhook_def installation_def sample_payload_def addRepository_def
      push_repo_def ensure_org_def u16_def)
  done

text \<open>
  C3. The claim asks that inserting a repository an organization already lists leaves
  the list as it is, on both insertion paths. \<open>/addOrgWithRepos\<close> looks the repository
  up before it pushes, and a listed repository leaves the registry unchanged there.
\<close>

lemma add_if_new_present:
  "orgRepositories s org = Some l \<Longrightarrow> r \<in> set l \<Longrightarrow> add_if_new org s r = s"
  by (simp add: add_if_new_def)

text \<open>
  C3, at the failing input. \<open>addRepository\<close> pushes without that look-up: the same
  repository added twice to the same organization is listed twice.
\<close>

theorem addRepository_twice_duplicates:
  "orgRepositories
     (addRepository (u16 ''a/b'') (u16 ''a'') 7 (addRepository (u16 ''a/b'') (u16 ''a'') 7 empty_registry))
     (u16 ''a'') = Some [u16 ''a/b'', u16 ''a/b'']"
  by (simp add: org_addRepository org_list_def empty_registry_def)

text \<open>
  C4, as stated, fails: an installation event with two distinct repositories, delivered
  to a registry that already holds them, adds no entry to \<open>installedRepositories\<close>, and
  the organization's list then holds each of them twice.
\<close>

theorem installation_redelivered_counterexample:
  "distinct (repositories sample_payload)
   \<and> installedRepositories installed_twice = installedRepositories installed_once
   \<and> orgRepositories installed_twice (u16 ''a'') = Some [u16 ''a/b'', u16 ''a/c'', u16 ''a/b'', u16 ''a/c'']"
  by (simp add: installed_twice_eq installed_once_eq sample_payload_def u16_def)

text \<open>
  C4, amended. After an installation event whose payload lists N distinct repositories,
  each of the N names is a key of \<open>installedRepositories\<close> mapped to the installation id
  and every other key keeps its value; the keys are the old keys and the N names, so N
  entries are added when none of the names was a key; the organization's list contains
  all N names, and each name the list did not hold before occurs in it exactly once.
\<close>

theorem webhook_installation:
  assumes "distinct (repositories p)"
  shows "(\<forall>n\<in>set (repositories p).
            installedRepositories (snd (webhook installation p s)) n = Some (installation_id p))
       \<and> (\<forall>n. n \<notin> set (repositories p) \<longrightarrow>
            installedRepositories (snd (webhook installation p s)) n = installedRepositories s n)
       \<and> dom (installedRepositories (snd (webhook installation p s)))
           = dom (installedRepositories s) \<union> set (repositories p)
       \<and> (finite (dom (installedRepositories s)) \<and> set (repositories p) \<inter> dom (installedRepositories s) = {} \<longrightarrow>
            card (dom (installedRepositories (snd (webhook installation p s))))
              = card (dom (installedRepositories s)) + length (repositories p))
       \<and> (\<forall>n\<in>set (repositories p). n \<in> set (org_list (snd (webhook installation p s)) (account_login p)))
       \<and> (\<forall>n\<in>set (repositories p). n \<notin> set (org_list s (account_login p)) \<longrightarrow>
            count_list (org_list (snd (webhook installation p s)) (account_login p)) n = 1)"
proof -
  let ?s' = "snd (webhook installation p s)"
  have s': "?s' = foldl (\<lambda>s' n. addRepository n (account_login p) (installation_id p) s') s (repositories p)"
    by (simp add: webhook_def installation_def)
  have inst: "installedRepositories ?s' k =
      (if k \<in> set (repositories p) then Some (installation_id p) else installedRepositories s k)" for k
    unfolding s' by (rule installed_replay)
  have d: "dom (installedRepositories ?s') = dom (installedRepositories s) \<union> set (repositories p)"
    by (auto simp: inst dom_def)
  have c: "card (dom (installedRepositories ?s')) = card (dom (installedRepositories s)) + length (repositories p)"
    if "finite (dom (installedRepositories s))" "set (repositories p) \<inter> dom (installedRepositories s) = {}"
  proof -
    have "card (dom (installedRepositories s) \<union> set (repositories p))
        = card (dom (installedRepositories s)) + card (set (repositories p))"
      using that by (intro card_Un_disjoint) auto
    with assms d show ?thesis
      by (simp add: distinct_card)
  qed
  have l: "org_list ?s' (account_login p) = org_list s (account_login p) @ repositories p"
    unfolding s' by (rule org_list_replay)
  have cnt: "count_list (org_list ?s' (account_login p)) n = 1"
    if "n \<in> set (repositories p)" "n \<notin> set (org_list s (account_login p))" for n
    using that assms by (simp add: l count_list_distinct)
  have mem: "n \<in> set (org_list ?s' (account_login p))" if "n \<in> set (repositories p)" for n
    using that by (simp add: l)
  from inst d c mem cnt show ?thesis
    by simp
qed

theorem webhook_installation_witness:
  "distinct (repositories sample_payload)
   \<and> finite (dom (installedRepositories empty_registry))
   \<and> set (repositories sample_payload) \<inter> dom (installedRepositories empty_registry) = {}
   \<and> card (dom (installedRepositories installed_once)) = 2
   \<and> u16 ''a/c'' \<in> set (repositories sample_payload)
   \<and> u16 ''a/c'' \<notin> set (org_list empty_registry (u16 ''a''))
   \<and> installedRepositories installed_once (u16 ''a/c'') = Some 7
   \<and> count_list (org_list installed_once (u16 ''a'')) (u16 ''a/c'') = 1"
proof -
  have d: "distinct (repositories sample_payload)"
    by (simp add: sample_payload_def u16_def)
  have f: "finite (dom (installedRepositories empty_registry))
           \<and> set (repositories sample_payload) \<inter> dom (installedRepositories empty_registry) = {}"
    by (simp add: empty_registry_def)
  have m: "u16 ''a/c'' \<in> set (repositories sample_payload)"
    by (simp add: sample_payload_def)
  have n: "u16 ''a/c'' \<notin> set (org_list empty_registry (u16 ''a''))"
    by (simp add: org_list_def empty_registry_def)
  have a: "account_login sample_payload = u16 ''a''" "installation_id sample_payload = 7"
    by (simp_all add: sample_payload_def)
  note w = webhook_installation [OF d, of empty_registry, folded installed_once_def, unfolded a]
  from w f have "card (dom (installedRepositories installed_once))
      = card (dom (installedRepositories empty_registry)) + length (repositories sample_payload)"
    by blast
  then have c: "card (dom (installedRepositories installed_once)) = 2"
    by (simp add: empty_registry_def sample_payload_def)
  from w m have i: "installedRepositories installed_once (u16 ''a/c'') = Some 7"
    by blast
  from w m n have "count_list (org_list installed_once (u16 ''a'')) (u16 ''a/c'') = 1"
    by blast
  with d f c m n i show ?thesis
    by blast
qed

text \<open>The invariant holds at the start and every write keeps it.\<close>

lemma inv_addRepository:
  assumes "registry_inv s"
  shows "registry_inv (addRepository r org i s)"
  unfolding registry_inv_def
proof (intro allI impI ballI)
  fix other l x
  assume l: "orgRepositories (addRepository r org i s) other = Some l" and x: "x \<in> set l"
  have old: "installedRepositories s y \<noteq> None" if "y \<in> set (org_list s org)" for y
    using that assms unfolding registry_inv_def org_list_def
    by (cases "orgRepositories s org") auto
  show "installedRepositories (addRepository r org i s) x \<noteq> None"
  proof (cases "other = org")
    case True
    with l x have "x = r \<or> x \<in> set (org_list s org)"
      by (auto simp: org_addRepository)
    with old show ?thesis
      by (auto simp: installed_addRepository)
  next
    case False
    with l have "orgRepositories s other = Some l"
      by (simp add: org_addRepository)
    with assms x have "installedRepositories s x \<noteq> None"
      unfolding registry_inv_def by blast
    then show ?thesis
      by (simp add: installed_addRepository)
  qed
qed

lemma inv_replay:
  "registry_inv s \<Longrightarrow> registry_inv (foldl (\<lambda>s' n. addRepository n org i s') s names)"
  by (induction names arbitrary: s) (simp_all add: inv_addRepository)

lemma inv_ensure_org: "registry_inv s \<Longrightarrow> registry_inv (ensure_org org s)"
  unfolding registry_inv_def
  by (auto simp: org_ensure_org split: if_splits)

lemma inv_add_if_new:
  "registry_inv s \<Longrightarrow> installedRepositories s r \<noteq> None \<Longrightarrow> registry_inv (add_if_new org s r)"
  unfolding registry_inv_def
  by (auto simp: add_if_new_def push_repo_def split: option.splits if_splits)

lemma inv_register:
  "registry_inv s \<Longrightarrow> \<forall>r\<in>set rs. installedRepositories s r \<noteq> None
     \<Longrightarrow> registry_inv (foldl (add_if_new org) s rs)"
  by (induction rs arbitrary: s) (simp_all add: inv_add_if_new)

lemma inv_addOrgWithRepos: "registry_inv s \<Longrightarrow> registry_inv (snd (addOrgWithRepos org repos s))"
proof (cases org)
  case None
  then show "registry_inv s \<Longrightarrow> ?thesis" by simp
next
  case (Some name)
  assume inv: "registry_inv s"
  show ?thesis
  proof (cases repos)
    case None
    with Some inv show ?thesis by simp
  next
    case rs: (Some rs)
    have "registry_inv (foldl (add_if_new name) (ensure_org name s) rs)"
      if "filter (\<lambda>repo. installedRepositories s repo = None) rs = []"
      using that inv
      by (intro inv_register inv_ensure_org) (auto simp: filter_empty_conv)
    with Some rs inv show ?thesis
      by (auto simp: Let_def inv_ensure_org)
  qed
qed

lemma inv_reachable: "reachable s \<Longrightarrow> registry_inv s"
proof (induction rule: reachable.induct)
  case start
  show ?case by (simp add: registry_inv_def empty_registry_def)
next
  case (hook s event p)
  then show ?case by (simp add: webhook_def inv_replay)
next
  case (register s org repos)
  from register.IH show ?case by (rule inv_addOrgWithRepos)
qed

text \<open>
  C5. In every reachable state of the registry, a repository name in the list of some
  organization is a key of \<open>installedRepositories\<close>.
\<close>

theorem org_repositories_installed:
  assumes "reachable s" and "orgRepositories s org = Some l" and "r \<in> set l"
  shows "installedRepositories s r \<noteq> None"
  using inv_reachable [OF assms(1)] assms(2,3)
  unfolding registry_inv_def by blast

lemma registered_eq:
  "registered =
     \<lparr>installedRepositories = [u16 ''a/b'' \<mapsto> 7, u16 ''a/c'' \<mapsto> 7],
      orgRepositories = [u16 ''a'' \<mapsto> [u16 ''a/b'', u16 ''a/c''], u16 ''o'' \<mapsto> [u16 ''a/b'']]\<rparr>"
  by (simp add: registered_def installed_once_eq ensure_org_def add_if_new_def push_repo_def u16_def)

lemma reachable_registered: "reachable registered"
  unfolding registered_def installed_once_def
  by (intro reachable.intros)

theorem org_repositories_installed_witness:
  "reachable registered
   \<and> orgRepositories registered (u16 ''o'') = Some [u16 ''a/b'']
   \<and> u16 ''a/b'' \<in> set [u16 ''a/b'']
   \<and> installedRepositories registered (u16 ''a/b'') \<noteq> None"
proof -
  have o: "orgRepositories registered (u16 ''o'') = Some [u16 ''a/b'']"
    by (simp add: registered_eq)
  have m: "u16 ''a/b'' \<in> set [u16 ''a/b'']"
    by simp
  from org_repositories_installed [OF reachable_registered o m] reachable_registered o m
  show ?thesis by blast
qed

text \<open>
  C2, as stated, fails: a request for an unknown organization with a repository that is
  not installed is answered with 400, and the organization is in \<open>orgRepositories\<close>
  afterwards, with an empty list.
\<close>

theorem addOrgWithRepos_new_org_counterexample:
  "installedRepositories empty_registry (u16 ''x/y'') = None
   \<and> status (fst (addOrgWithRepos (Some (u16 ''o'')) (Some [u16 ''x/y'']) empty_registry)) = 400
   \<and> orgRepositories empty_registry (u16 ''o'') = None
   \<and> orgRepositories (snd (addOrgWithRepos (Some (u16 ''o'')) (Some [u16 ''x/y'']) empty_registry)) (u16 ''o'')
       = Some []"
  by (simp add: empty_registry_def ensure_org_def u16_def)

text \<open>
  C2, amended. A request that lists a repository that is not installed is answered with
  400; \<open>installedRepositories\<close> is unchanged and every organization already known keeps
  its list, so no repository is added to any list; an organization not yet known is in
  \<open>orgRepositories\<close> afterwards exactly when it is the request's organization and a
  non-empty string, and then with an empty list.
\<close>

theorem addOrgWithRepos_rejects_batch:
  assumes "\<exists>r\<in>set repos. installedRepositories s r = None"
  shows "status (fst (addOrgWithRepos org (Some repos) s)) = 400
       \<and> installedRepositories (snd (addOrgWithRepos org (Some repos) s)) = installedRepositories s
       \<and> (\<forall>other. orgRepositories s other \<noteq> None \<longrightarrow>
            orgRepositories (snd (addOrgWithRepos org (Some repos) s)) other = orgRepositories s other)
       \<and> (\<forall>other. orgRepositories s other = None \<longrightarrow>
            orgRepositories (snd (addOrgWithRepos org (Some repos) s)) other
              = (if org = Some other \<and> other \<noteq> [] then Some [] else None))"
proof (cases org)
  case None
  then show ?thesis by (simp add: invalid_request_def)
next
  case (Some name)
  from assms have "filter (\<lambda>repo. installedRepositories s repo = None) repos \<noteq> []"
    by (auto simp: filter_empty_conv)
  with Some show ?thesis
    by (auto simp: Let_def invalid_request_def org_ensure_org)
qed

theorem addOrgWithRepos_rejects_batch_witness:
  "(\<exists>r\<in>set [u16 ''a/b'', u16 ''x/y'']. installedRepositories installed_once r = None)
   \<and> status (fst rejected) = 400
   \<and> installedRepositories (snd rejected) = installedRepositories installed_once
   \<and> orgRepositories installed_once (u16 ''a'') \<noteq> None
   \<and> orgRepositories (snd rejected) (u16 ''a'') = orgRepositories installed_once (u16 ''a'')
   \<and> orgRepositories installed_once (u16 ''o'') = None
   \<and> orgRepositories (snd rejected) (u16 ''o'') = Some []
   \<and> orgRepositories installed_once (u16 ''zz'') = None
   \<and> orgRepositories (snd rejected) (u16 ''zz'') = None"
proof -
  have missing: "\<exists>r\<in>set [u16 ''a/b'', u16 ''x/y'']. installedRepositories installed_once r = None"
    by (simp add: installed_once_eq u16_def)
  have known: "orgRepositories installed_once (u16 ''a'') \<noteq> None"
    by (simp add: installed_once_eq)
  have new: "orgRepositories installed_once (u16 ''o'') = None"
      "orgRepositories installed_once (u16 ''zz'') = None"
    by (simp_all add: installed_once_eq u16_def)
  have names: "u16 ''o'' \<noteq> []" "u16 ''o'' \<noteq> u16 ''zz''"
    by (simp_all add: u16_def)
  note w = addOrgWithRepos_rejects_batch [OF missing, of "Some (u16 ''o'')", folded rejected_def]
  from w new(1) names(1) have made: "orgRepositories (snd rejected) (u16 ''o'') = Some []"
    by simp
  from w new(2) names(2) have other: "orgRepositories (snd rejected) (u16 ''zz'') = None"
    by simp
  from w known missing new made other show ?thesis
    by blast
qed

section \<open>Properties of the fetcher and of the safety endpoint\<close>

text \<open>
  C7. When both requests succeed, the result has no \<open>error\<close>, and each alert list is
  returned as it is when it is non-empty and replaced by its sentinel string when it is
  empty. When a request fails, the result has the \<open>error\<close> property only.
\<close>

theorem fetchSecurityReports_result:
  "(octokit CodeScanningAlerts owner repo = Some cq \<and> octokit DependabotAlerts owner repo = Some dp \<longrightarrow>
      codeql (fetchSecurityReports octokit owner repo) = (if cq = [] then Str no_codeql_alerts else Arr cq)
      \<and> dependabot (fetchSecurityReports octokit owner repo) = (if dp = [] then Str no_dependabot_alerts else Arr dp)
      \<and> error (fetchSecurityReports octokit owner repo) = Undefined)
   \<and> (octokit CodeScanningAlerts owner repo = None \<or> octokit DependabotAlerts owner repo = None \<longrightarrow>
      codeql (fetchSecurityReports octokit owner repo) = Undefined
      \<and> dependabot (fetchSecurityReports octokit owner repo) = Undefined
      \<and> error (fetchSecurityReports octokit owner repo) = Str (u16 ''Failed to fetch security reports''))"
  by (auto simp: fetchSecurityReports_def fetch_failed_def split: option.splits)

theorem fetchSecurityReports_result_witness:
  "noisy_client CodeScanningAlerts (u16 ''a'') (Some (u16 ''b'')) = Some [Obj [(''number'', Num 4)]]
   \<and> noisy_client DependabotAlerts (u16 ''a'') (Some (u16 ''b'')) = Some []
   \<and> codeql (fetchSecurityReports noisy_client (u16 ''a'') (Some (u16 ''b''))) = Arr [Obj [(''number'', Num 4)]]
   \<and> dependabot (fetchSecurityReports noisy_client (u16 ''a'') (Some (u16 ''b''))) = Str no_dependabot_alerts
   \<and> offline_client DependabotAlerts (u16 ''a'') (Some (u16 ''b'')) = None
   \<and> codeql (fetchSecurityReports offline_client (u16 ''a'') (Some (u16 ''b''))) = Undefined
   \<and> dependabot (fetchSecurityReports offline_client (u16 ''a'') (Some (u16 ''b''))) = Undefined
   \<and> error (fetchSecurityReports offline_client (u16 ''a'') (Some (u16 ''b''))) = Str (u16 ''Failed to fetch security reports'')"
proof -
  have n: "noisy_client CodeScanningAlerts (u16 ''a'') (Some (u16 ''b'')) = Some [Obj [(''number'', Num 4)]]
           \<and> noisy_client DependabotAlerts (u16 ''a'') (Some (u16 ''b'')) = Some []"
    by (simp add: noisy_client_def)
  have f: "offline_client DependabotAlerts (u16 ''a'') (Some (u16 ''b'')) = None"
    by (simp add: offline_client_def)
  from n fetchSecurityReports_result [of noisy_client "u16 ''a''" "Some (u16 ''b'')" "[Obj [(''number'', Num 4)]]" "[]"]
  have a: "codeql (fetchSecurityReports noisy_client (u16 ''a'') (Some (u16 ''b''))) = Arr [Obj [(''number'', Num 4)]]
         \<and> dependabot (fetchSecurityReports noisy_client (u16 ''a'') (Some (u16 ''b''))) = Str no_dependabot_alerts"
    by simp
  from f fetchSecurityReports_result [of offline_client "u16 ''a''" "Some (u16 ''b'')"]
  have b: "codeql (fetchSecurityReports offline_client (u16 ''a'') (Some (u16 ''b''))) = Undefined
   \<and> dependabot (fetchSecurityReports offline_client (u16 ''a'') (Some (u16 ''b''))) = Undefined
   \<and> error (fetchSecurityReports offline_client (u16 ''a'') (Some (u16 ''b''))) = Str (u16 ''Failed to fetch security reports'')"
    by blast
  from n f a b show ?thesis by blast
qed

text \<open>
  The sentinel carries the verdict: for a successful fetch of alert lists (which do not
  hold the bare mark as an element), the repository is safe exactly when both lists are
  empty.
\<close>

lemma fetched_clear:
  assumes "octokit CodeScanningAlerts owner repo = Some cq"
    and "octokit DependabotAlerts owner repo = Some dp"
    and "Str check_mark \<notin> set cq" and "Str check_mark \<notin> set dp"
  shows "classify (named name (fetchSecurityReports octokit owner repo))
         = Inr \<lparr>v_repoFullName = name, safeToUse = (cq = [] \<and> dp = []),
                message = (if cq = [] \<and> dp = [] then safe_message name else unsafe_message name)\<rparr>"
  using assms
  by (simp add: classify_def named_def fetchSecurityReports_def no_codeql_alerts_def
      no_dependabot_alerts_def)

text \<open>
  C8. A request whose \<open>org\<close> parameter is absent or is no key of \<open>orgRepositories\<close> is
  answered with 404 and leaves the registry as it was, in both server files.
\<close>

theorem checkIfSafeToUse_unknown_org:
  assumes "\<forall>name. org = Some name \<longrightarrow> orgRepositories s name = None"
  shows "map_option status (fst (checkIfSafeToUse getOctokit org s)) = Some 404
       \<and> snd (checkIfSafeToUse getOctokit org s) = s
       \<and> map_option status (fst (checkIfSafeToUse_2 getOctokit org s)) = Some 404
       \<and> snd (checkIfSafeToUse_2 getOctokit org s) = s"
  using assms
  by (cases org) (simp_all add: checkIfSafeToUse_def checkIfSafeToUse_2_def no_repositories_def)

theorem checkIfSafeToUse_unknown_org_witness:
  "orgRepositories installed_once (u16 ''zz'') = None
   \<and> map_option status (fst (checkIfSafeToUse quiet_platform (Some (u16 ''zz'')) installed_once)) = Some 404
   \<and> snd (checkIfSafeToUse quiet_platform (Some (u16 ''zz'')) installed_once) = installed_once
   \<and> map_option status (fst (checkIfSafeToUse_2 quiet_platform (Some (u16 ''zz'')) installed_once)) = Some 404
   \<and> snd (checkIfSafeToUse_2 quiet_platform (Some (u16 ''zz'')) installed_once) = installed_once"
proof -
  have u: "orgRepositories installed_once (u16 ''zz'') = None"
    by (simp add: installed_once_eq u16_def)
  then have "\<forall>name. Some (u16 ''zz'') = Some name \<longrightarrow> orgRepositories installed_once name = None"
    by simp
  from checkIfSafeToUse_unknown_org [OF this, of quiet_platform] u show ?thesis
    by blast
qed

lemma collect_reports_all:
  assumes "\<forall>r\<in>set repos. \<forall>i. installedRepositories s r = Some i \<and> i \<noteq> 0 \<longrightarrow> getOctokit i \<noteq> None"
  shows "\<exists>reports. collect_reports getOctokit s repos = Some reports
           \<and> list_all2 (fetched_by getOctokit s) (filter (tracked s) repos) reports"
  using assms
proof (induction repos)
  case Nil
  show ?case by simp
next
  case (Cons name names)
  then obtain reports where rest: "collect_reports getOctokit s names = Some reports"
      "list_all2 (fetched_by getOctokit s) (filter (tracked s) names) reports"
    by auto
  show ?case
  proof (cases "tracked s name")
    case False
    then have "installedRepositories s name = None \<or> installedRepositories s name = Some 0"
      by (auto simp: tracked_def split: option.splits)
    with rest False show ?thesis
      by auto
  next
    case True
    then obtain i where i: "installedRepositories s name = Some i" "i \<noteq> 0"
      by (auto simp: tracked_def split: option.splits)
    with Cons.prems obtain octokit where o: "getOctokit i = Some octokit"
      by auto
    with i have "fetched_by getOctokit s name
        (named name (fetchSecurityReports octokit (fst (owner_repo name)) (snd (owner_repo name))))"
      by (simp add: fetched_by_def)
    with i o rest True show ?thesis
      by simp
  qed
qed

lemma collect_reports_names:
  "collect_reports getOctokit s repos = Some reports \<Longrightarrow> map repoFullName reports = filter (tracked s) repos"
  by (induction repos arbitrary: reports)
     (auto simp: tracked_def named_def split: option.splits if_splits)

lemma collect_quiet:
  "collect_reports quiet_platform installed_once [u16 ''a/b'', u16 ''a/c'']
     = Some [quiet_report (u16 ''a/b''), quiet_report (u16 ''a/c'')]"
  by (simp add: installed_once_eq quiet_platform_def quiet_client_def quiet_report_def named_def
      fetchSecurityReports_def u16_def)

text \<open>
  C9, as stated, fails: for a known organization, nothing is sent when the token
  exchange fails, and the second server file sends the object \<open>{ org, reports }\<close> where
  the first sends the array.
\<close>

theorem checkIfSafeToUse_counterexample:
  "orgRepositories installed_once (u16 ''a'') = Some [u16 ''a/b'', u16 ''a/c'']
   \<and> fst (checkIfSafeToUse no_tokens (Some (u16 ''a'')) installed_once) = None
   \<and> map_option body (fst (checkIfSafeToUse_2 quiet_platform (Some (u16 ''a'')) installed_once))
       = Some (OrgReports (u16 ''a'') [quiet_report (u16 ''a/b''), quiet_report (u16 ''a/c'')])"
proof -
  have o: "orgRepositories installed_once (u16 ''a'') = Some [u16 ''a/b'', u16 ''a/c'']"
    by (simp add: installed_once_eq)
  have "collect_reports no_tokens installed_once [u16 ''a/b'', u16 ''a/c''] = None"
    by (simp add: installed_once_eq no_tokens_def u16_def)
  with o collect_quiet show ?thesis
    by (simp add: checkIfSafeToUse_def checkIfSafeToUse_2_def)
qed

text \<open>
  C9, amended. For a known organization, when the token exchange succeeds for every
  listed repository that is not skipped, the answer is 200 and carries one report per
  list entry whose installation id is truthy, in list order, each the named result of the
  fetch for that repository; the first server file sends the reports as the array, the
  second inside \<open>{ org, reports }\<close>. The registry is unchanged.
\<close>

theorem checkIfSafeToUse_known_org:
  assumes "orgRepositories s name = Some repos"
    and "\<forall>r\<in>set repos. \<forall>i. installedRepositories s r = Some i \<and> i \<noteq> 0 \<longrightarrow> getOctokit i \<noteq> None"
  shows "\<exists>reports.
           checkIfSafeToUse getOctokit (Some name) s = (Some \<lparr>status = 200, body = ReportArray reports\<rparr>, s)
         \<and> checkIfSafeToUse_2 getOctokit (Some name) s = (Some \<lparr>status = 200, body = OrgReports name reports\<rparr>, s)
         \<and> map repoFullName reports = filter (tracked s) repos
         \<and> list_all2 (fetched_by getOctokit s) (filter (tracked s) repos) reports"
proof -
  from collect_reports_all [OF assms(2)] obtain reports
    where r: "collect_reports getOctokit s repos = Some reports"
      "list_all2 (fetched_by getOctokit s) (filter (tracked s) repos) reports"
    by blast
  with assms(1) collect_reports_names [OF r(1)] show ?thesis
    by (simp add: checkIfSafeToUse_def checkIfSafeToUse_2_def)
qed

theorem checkIfSafeToUse_known_org_witness:
  "orgRepositories installed_once (u16 ''a'') = Some [u16 ''a/b'', u16 ''a/c'']
   \<and> (\<exists>reports.
        checkIfSafeToUse quiet_platform (Some (u16 ''a'')) installed_once
          = (Some \<lparr>status = 200, body = ReportArray reports\<rparr>, installed_once)
        \<and> map repoFullName reports = [u16 ''a/b'', u16 ''a/c''])
   \<and> checkIfSafeToUse quiet_platform (Some (u16 ''a'')) installed_once
        = (Some \<lparr>status = 200,
                 body = ReportArray [quiet_report (u16 ''a/b''), quiet_report (u16 ''a/c'')]\<rparr>,
           installed_once)"
proof -
  have o: "orgRepositories installed_once (u16 ''a'') = Some [u16 ''a/b'', u16 ''a/c'']"
    by (simp add: installed_once_eq)
  have m: "\<forall>r\<in>set [u16 ''a/b'', u16 ''a/c'']. \<forall>i.
             installedRepositories installed_once r = Some i \<and> i \<noteq> 0 \<longrightarrow> quiet_platform i \<noteq> None"
    by (simp add: quiet_platform_def)
  have t: "filter (tracked installed_once) [u16 ''a/b'', u16 ''a/c''] = [u16 ''a/b'', u16 ''a/c'']"
    by (simp add: tracked_def installed_once_eq u16_def)
  from checkIfSafeToUse_known_org [OF o m] obtain reports where
    "checkIfSafeToUse quiet_platform (Some (u16 ''a'')) installed_once
       = (Some \<lparr>status = 200, body = ReportArray reports\<rparr>, installed_once)"
    "map repoFullName reports = filter (tracked installed_once) [u16 ''a/b'', u16 ''a/c'']"
    by blast
  with t have e: "\<exists>reports.
        checkIfSafeToUse quiet_platform (Some (u16 ''a'')) installed_once
          = (Some \<lparr>status = 200, body = ReportArray reports\<rparr>, installed_once)
        \<and> map repoFullName reports = [u16 ''a/b'', u16 ''a/c'']"
    by auto
  have "checkIfSafeToUse quiet_platform (Some (u16 ''a'')) installed_once
        = (Some \<lparr>status = 200,
                 body = ReportArray [quiet_report (u16 ''a/b''), quiet_report (u16 ''a/c'')]\<rparr>,
           installed_once)"
    using o collect_quiet by (simp add: checkIfSafeToUse_def)
  with o e show ?thesis by blast
qed

end
